theory Spec2Isabelle
  imports Complex_Main "HOL-Library.Log_Nat"
begin

section \<open>Data model of the chess engine wrapper\<close>

text \<open>
  The TypeScript \<open>number\<close> fields of \<open>EngineConfig\<close> are modelled as \<open>real\<close>, the
  real number a binary64 value denotes. Where the code decides on a rounded result
  and the exact result would decide otherwise (the probability compared with a draw
  in \<open>applyHumanLikeInaccuracy\<close>, the product of which \<open>selectSuboptimalMove\<close> takes
  the floor) each operation is rounded by \<open>fl\<close>. The comparisons of
  \<open>calculateSkillLevel\<close> are exact, the tier tests of \<open>selectSuboptimalMove\<close> decide
  for a binary64 rating as they do over the reals, and \<open>calculateMoveDelay\<close> is read
  over the reals. Values
  produced by \<open>parseInt\<close> on a run of digits (search depth, centipawn score) are
  \<open>int\<close>.
\<close>

record EngineConfig =
  eloRating :: real
  skillLevel :: real
  contempt :: real
  moveOverhead :: real
  nodesPerMove :: real
  timePerMove :: real
  accuracy :: real

text \<open>\<open>Partial<EngineConfig>\<close>: every key may be absent.\<close>

record PartialConfig =
  p_eloRating :: "real option"
  p_skillLevel :: "real option"
  p_contempt :: "real option"
  p_moveOverhead :: "real option"
  p_nodesPerMove :: "real option"
  p_timePerMove :: "real option"
  p_accuracy :: "real option"

datatype Confidence = Best | Good | Questionable | Blunder

record MoveEvaluation =
  eval_move :: "string option"
  score :: int
  depth :: int
  confidence :: Confidence
  explanation :: string

record EngineMove =
  move :: "string option"
  evaluation :: MoveEvaluation
  isDeliberate :: bool

text \<open>The constructor's defaults (\<open>this.config = { eloRating: 1500, ... }\<close>).\<close>

definition defaultConfig :: EngineConfig where
  "defaultConfig = \<lparr> eloRating = 1500, skillLevel = 10, contempt = 0, moveOverhead = 100,
     nodesPerMove = 1000000, timePerMove = 1000, accuracy = 85 \<rparr>"

text \<open>The object spread \<open>{ ...this.config, ...newConfig }\<close>: a key of the partial
  configuration that is present replaces the current value.\<close>

definition mergeConfig :: "EngineConfig \<Rightarrow> PartialConfig \<Rightarrow> EngineConfig" where
  "mergeConfig c p = \<lparr>
     eloRating = (case p_eloRating p of None \<Rightarrow> eloRating c | Some v \<Rightarrow> v),
     skillLevel = (case p_skillLevel p of None \<Rightarrow> skillLevel c | Some v \<Rightarrow> v),
     contempt = (case p_contempt p of None \<Rightarrow> contempt c | Some v \<Rightarrow> v),
     moveOverhead = (case p_moveOverhead p of None \<Rightarrow> moveOverhead c | Some v \<Rightarrow> v),
     nodesPerMove = (case p_nodesPerMove p of None \<Rightarrow> nodesPerMove c | Some v \<Rightarrow> v),
     timePerMove = (case p_timePerMove p of None \<Rightarrow> timePerMove c | Some v \<Rightarrow> v),
     accuracy = (case p_accuracy p of None \<Rightarrow> accuracy c | Some v \<Rightarrow> v) \<rparr>"

definition noChange :: PartialConfig where
  "noChange = \<lparr> p_eloRating = None, p_skillLevel = None, p_contempt = None,
     p_moveOverhead = None, p_nodesPerMove = None, p_timePerMove = None, p_accuracy = None \<rparr>"

section \<open>Binary64 arithmetic\<close>

text \<open>
  A JavaScript \<open>number\<close> is an IEEE 754 binary64 value, held here as the real number
  it denotes. \<open>fl x\<close> is the binary64 value of a real result \<open>x\<close>: rounded to the
  nearest multiple of the unit in the last place of its binade (53 significant bits),
  a tie going to the even multiple. The exponent is not bounded: there is no overflow
  and there are no subnormal numbers; the values met here lie far inside the normal
  range.
  \<open>exponent x\<close> is the integer \<open>e\<close> with \<open>2^e \<le> |x| < 2^(e + 1)\<close>, found from the
  bit length of the integer part of \<open>|x|\<close> or of \<open>1 / |x|\<close>.
\<close>

definition exponent :: "real \<Rightarrow> int" where
  "exponent x =
     (if \<bar>x\<bar> \<ge> 1 then bitlen \<lfloor>\<bar>x\<bar>\<rfloor> - 1 else - bitlen (\<lceil>1 / \<bar>x\<bar>\<rceil> - 1))"

definition roundHalfEven :: "real \<Rightarrow> int" where
  "roundHalfEven y =
     (let f = \<lfloor>y\<rfloor>; r = y - of_int f
      in if r < 1 / 2 then f else if r > 1 / 2 then f + 1 else if even f then f else f + 1)"

definition ulp :: "real \<Rightarrow> real" where
  "ulp x = 2 powi (exponent x - 52)"

definition fl :: "real \<Rightarrow> real" where
  "fl x = (if x = 0 then 0 else of_int (roundHalfEven (x / ulp x)) * ulp x)"

section \<open>Pure functions of \<open>ChessEngine\<close>\<close>

subsection \<open>\<open>calculateSkillLevel\<close>\<close>

definition calculateSkillLevel :: "real \<Rightarrow> int" where
  "calculateSkillLevel elo =
     (if elo < 800 then 0
      else if elo < 1000 then 2
      else if elo < 1200 then 4
      else if elo < 1400 then 6
      else if elo < 1600 then 8
      else if elo < 1800 then 10
      else if elo < 2000 then 12
      else if elo < 2200 then 15
      else if elo < 2400 then 18
      else 20)"

subsection \<open>\<open>selectSuboptimalMove\<close> and \<open>applyHumanLikeInaccuracy\<close>\<close>

text \<open>
  A JavaScript array read \<open>xs[i]\<close>: \<open>undefined\<close> (here \<open>None\<close>) outside the array.
  The index is the integer \<open>Math.floor\<close> returned.
\<close>

definition arrayAt :: "'a list \<Rightarrow> int \<Rightarrow> 'a option" where
  "arrayAt xs i = (if 0 \<le> i \<and> i < int (length xs) then Some (xs ! nat i) else None)"

text \<open>
  Each call site of \<open>Math.random()\<close> is a parameter of the function that holds it;
  the JavaScript generator returns a binary64 value \<open>r\<close> with \<open>0 \<le> r < 1\<close>, so
  \<open>r \<le> 1 - 2^-53\<close>.
  \<open>selectSuboptimalMove cfg rnd bestMove legalMoves\<close>: \<open>rnd\<close> is the draw that is
  multiplied by the pool size; \<open>Math.floor\<close> is taken of the rounded product. The
  pool size is an integer and exact. The two tier tests compare the quotient with a
  constant; for a binary64 rating the rounded quotient exceeds the rounded constant
  exactly when the rating exceeds 1500 (resp. 750), as over the reals.
\<close>

definition selectSuboptimalMove ::
    "EngineConfig \<Rightarrow> real \<Rightarrow> string \<Rightarrow> string list \<Rightarrow> string option" where
  "selectSuboptimalMove cfg rnd bestMove legalMoves =
     (let alternativeMoves = filter (\<lambda>m. m \<noteq> bestMove) legalMoves in
      if length alternativeMoves = 0 then Some bestMove
      else
        let eloBasedSelection = eloRating cfg / 2500 in
        if eloBasedSelection > 0.6 then
          arrayAt alternativeMoves \<lfloor>fl (rnd * real (min 3 (length alternativeMoves)))\<rfloor>
        else if eloBasedSelection > 0.3 then
          arrayAt alternativeMoves \<lfloor>fl (rnd * real (min 5 (length alternativeMoves)))\<rfloor>
        else
          arrayAt alternativeMoves \<lfloor>fl (rnd * real (length alternativeMoves))\<rfloor>)"

text \<open>
  The constant \<open>finalAccuracy\<close> of \<open>applyHumanLikeInaccuracy\<close>, with the rounding of
  the two divisions and of the product; \<open>Math.min\<close> is exact.
\<close>

definition finalAccuracy :: "EngineConfig \<Rightarrow> real" where
  "finalAccuracy cfg =
     (let accuracyFactor = fl (accuracy cfg / 100);
          eloFactor = min (fl (eloRating cfg / 2500)) 1
      in fl (accuracyFactor * eloFactor))"

text \<open>
  \<open>applyHumanLikeInaccuracy cfg randomFactor rnd bestMove legalMoves\<close>:
  \<open>randomFactor\<close> is the function's own draw, \<open>rnd\<close> the draw handed on to
  \<open>selectSuboptimalMove\<close>.
\<close>

definition applyHumanLikeInaccuracy ::
    "EngineConfig \<Rightarrow> real \<Rightarrow> real \<Rightarrow> string \<Rightarrow> string list \<Rightarrow> string option" where
  "applyHumanLikeInaccuracy cfg randomFactor rnd bestMove legalMoves =
     (if accuracy cfg \<ge> 100 then Some bestMove
      else if randomFactor < finalAccuracy cfg then Some bestMove
      else selectSuboptimalMove cfg rnd bestMove legalMoves)"

subsection \<open>\<open>calculateMoveDelay\<close>\<close>

text \<open>\<open>rnd\<close> is the value of \<open>Math.random()\<close> inside \<open>0.5 + Math.random() * 0.5\<close>.\<close>

definition calculateMoveDelay :: "EngineConfig \<Rightarrow> real \<Rightarrow> real" where
  "calculateMoveDelay cfg rnd =
     (let baseDelay = 500;
          maxDelay = 3000;
          eloFactor = 1 - (eloRating cfg / 2500);
          randomFactor = 0.5 + rnd * 0.5
      in baseDelay + (maxDelay - baseDelay) * eloFactor * randomFactor)"

subsection \<open>\<open>evaluateConfidence\<close> and \<open>generateExplanation\<close>\<close>

definition evaluateConfidence :: "int \<Rightarrow> int \<Rightarrow> Confidence" where
  "evaluateConfidence sc dp =
     (let absScore = \<bar>sc\<bar> in
      if absScore > 500 then Best
      else if absScore > 200 then Good
      else if absScore > - 100 then Questionable
      else Blunder)"

definition generateExplanation :: "string option \<Rightarrow> int \<Rightarrow> string" where
  "generateExplanation mv sc =
     (if sc > 300 then ''Excellent move!''
      else if sc > 100 then ''Good move''
      else if sc > - 50 then ''Reasonable move''
      else if sc > - 200 then ''Questionable move''
      else ''This might not be the best'')"

section \<open>\<open>analyzeMoveQuality\<close> of the training log\<close>

datatype LogType = Move | BlunderT | Mistake | Inaccuracy | GoodT | Excellent | Brilliant

record MoveQuality =
  quality_type :: LogType
  quality_explanation :: string

definition analyzeMoveQuality :: "int \<Rightarrow> int \<Rightarrow> bool \<Rightarrow> MoveQuality" where
  "analyzeMoveQuality prevEval currentEval isPlayerMove =
     (let evalChange = (if isPlayerMove then currentEval - prevEval else prevEval - currentEval) in
      if evalChange > 200 then
        \<lparr> quality_type = Brilliant,
          quality_explanation = ''Brilliant move! Significant advantage gained.'' \<rparr>
      else if evalChange > 100 then
        \<lparr> quality_type = Excellent, quality_explanation = ''Excellent move! Clear improvement.'' \<rparr>
      else if evalChange > 0 then
        \<lparr> quality_type = GoodT,
          quality_explanation = ''Good move, maintaining or improving position.'' \<rparr>
      else if evalChange > - 50 then
        \<lparr> quality_type = Move, quality_explanation = ''Reasonable move.'' \<rparr>
      else if evalChange > - 100 then
        \<lparr> quality_type = Inaccuracy,
          quality_explanation = ''Inaccuracy. A better move was available.'' \<rparr>
      else if evalChange > - 200 then
        \<lparr> quality_type = Mistake, quality_explanation = ''Mistake! This loses some advantage.'' \<rparr>
      else
        \<lparr> quality_type = BlunderT,
          quality_explanation = ''Blunder! This significantly worsens the position.'' \<rparr>)"


section \<open>The line protocol with the search process\<close>

subsection \<open>Reading the engine's output lines\<close>

definition startsWith :: "string \<Rightarrow> string \<Rightarrow> bool" where
  "startsWith s p \<longleftrightarrow> take (length p) s = p"

text \<open>The regular expression classes \<open>\d\<close> and \<open>\w\<close> (ASCII, no unicode flag).\<close>

definition isDigit :: "char \<Rightarrow> bool" where
  "isDigit c \<longleftrightarrow> c \<in> set ''0123456789''"

definition isWordChar :: "char \<Rightarrow> bool" where
  "isWordChar c \<longleftrightarrow>
     c \<in> set ''abcdefghijklmnopqrstuvwxyzABCDEFGHIJKLMNOPQRSTUVWXYZ0123456789_''"

text \<open>
  The three patterns of \<open>messageHandler\<close> have one shape: a literal keyword, an
  optional minus sign (only in \<open>/score cp (-?\d+)/\<close>) and a greedy non-empty run of
  one character class, which is the capture group. \<open>captureAt\<close> tries the pattern at
  the start of \<open>s\<close>; \<open>regexSearch\<close> is \<open>String.prototype.match\<close> without the \<open>g\<close>
  flag: the leftmost position where the pattern matches.
\<close>

definition captureAt :: "string \<Rightarrow> bool \<Rightarrow> (char \<Rightarrow> bool) \<Rightarrow> string \<Rightarrow> string option" where
  "captureAt keyword optMinus cls s =
     (if startsWith s keyword then
        let rest = drop (length keyword) s;
            minus = (optMinus \<and> startsWith rest ''-'');
            body = (if minus then drop 1 rest else rest);
            digits = takeWhile cls body
        in if digits = [] then None else Some ((if minus then ''-'' else []) @ digits)
      else None)"

fun regexSearch :: "(string \<Rightarrow> string option) \<Rightarrow> string \<Rightarrow> string option" where
  "regexSearch pat [] = pat []"
| "regexSearch pat (c # cs) =
     (case pat (c # cs) of Some g \<Rightarrow> Some g | None \<Rightarrow> regexSearch pat cs)"

definition depthMatch :: "string \<Rightarrow> string option" where
  "depthMatch message = regexSearch (captureAt ''depth '' False isDigit) message"

definition scoreMatch :: "string \<Rightarrow> string option" where
  "scoreMatch message = regexSearch (captureAt ''score cp '' True isDigit) message"

definition moveMatch :: "string \<Rightarrow> string option" where
  "moveMatch message = regexSearch (captureAt ''bestmove '' False isWordChar) message"

text \<open>
  \<open>parseInt\<close> on a capture of \<open>-?\d+\<close>: the decimal value, as an unbounded integer
  (a run of more than 15 digits would lose precision as a double). The value of a
  digit is its character code less 48, the code of \<open>0\<close>.
\<close>

definition digitValue :: "char \<Rightarrow> int" where
  "digitValue c = int (of_char c) - 48"

definition parseInt :: "string \<Rightarrow> int" where
  "parseInt s =
     (if startsWith s ''-'' then - foldl (\<lambda>a c. 10 * a + digitValue c) 0 (drop 1 s)
      else foldl (\<lambda>a c. 10 * a + digitValue c) 0 s)"

subsection \<open>Commands, handlers, promises and the engine object\<close>

text \<open>
  A command is the line \<open>sendCommand\<close> posts: \<open>uci\<close>, \<open>isready\<close>,
  \<open>setoption name N value V\<close>, \<open>position fen F\<close>, \<open>go movetime T\<close>, \<open>go nodes N\<close>.
  The interpolated values are kept as values.
\<close>

datatype command =
    Uci
  | IsReady
  | SetOption string real
  | PositionFen string
  | GoMovetime real
  | GoNodes real

text \<open>
  The function stored in \<open>stockfish.onmessage\<close>: \<open>null\<close>, the arrow function of
  \<open>initializeEngine\<close> that calls \<open>handleEngineMessage\<close>, or the \<open>messageHandler\<close>
  closure of one \<open>getBestMove\<close> call with what it captured: the promise it resolves,
  the legal moves, and the current values of its variables \<open>evaluation\<close> and \<open>depth\<close>.
\<close>

datatype handler =
    NoHandler
  | EngineMessageHandler
  | SearchHandler nat "string list" int int

record Stockfish =
  onmessage :: handler
  posted :: "command list"

text \<open>
  A promise returned by \<open>getBestMove\<close>: not resolved; \<open>setTimeout\<close> armed to resolve
  it with a move after a delay in milliseconds; resolved with \<open>null\<close>; rejected by an
  exception thrown in the executor.
\<close>

datatype promise =
    Pending
  | ResolveAfter real EngineMove
  | ResolvedNull
  | Rejected

text \<open>
  The fields of \<open>ChessEngine\<close> that the modelled methods use, the promises handed
  out so far (a promise is named by its position), and the calls suspended in
  \<open>waitForReady\<close>, each with the position it was called for.
\<close>

record ChessEngine =
  stockfish :: "Stockfish option"
  config :: EngineConfig
  isReady :: bool
  promises :: "promise list"
  waiting :: "(nat \<times> string) list"

definition newChessEngine :: "PartialConfig \<Rightarrow> ChessEngine" where
  "newChessEngine cfg = \<lparr> stockfish = None, config = mergeConfig defaultConfig cfg,
     isReady = False, promises = [], waiting = [] \<rparr>"

definition sendCommand :: "command \<Rightarrow> ChessEngine \<Rightarrow> ChessEngine" where
  "sendCommand cmd s =
     (case stockfish s of
        None \<Rightarrow> s
      | Some w \<Rightarrow> s\<lparr>stockfish := Some (w\<lparr>posted := posted w @ [cmd]\<rparr>)\<rparr>)"

text \<open>\<open>initializeEngine\<close>: the dynamic import succeeds, or fails and is only logged.\<close>

definition initializeEngine :: "bool \<Rightarrow> ChessEngine \<Rightarrow> ChessEngine" where
  "initializeEngine importOk s =
     (if importOk then
        sendCommand IsReady (sendCommand Uci
          (s\<lparr>stockfish := Some \<lparr> onmessage = EngineMessageHandler, posted = [] \<rparr>\<rparr>))
      else s)"

definition configureEngine :: "ChessEngine \<Rightarrow> ChessEngine" where
  "configureEngine s =
     (let s1 = sendCommand (SetOption ''Skill Level'' (skillLevel (config s))) s;
          s2 = sendCommand (SetOption ''Contempt'' (contempt (config s1))) s1;
          s3 = sendCommand (SetOption ''Move Overhead'' (moveOverhead (config s2))) s2;
          adjustedSkillLevel = calculateSkillLevel (eloRating (config s3));
          s4 = sendCommand (SetOption ''Skill Level'' (of_int adjustedSkillLevel)) s3
      in sendCommand IsReady s4)"

definition updateConfig :: "PartialConfig \<Rightarrow> ChessEngine \<Rightarrow> ChessEngine" where
  "updateConfig newConfig s = configureEngine (s\<lparr>config := mergeConfig (config s) newConfig\<rparr>)"

definition handleEngineMessage :: "string \<Rightarrow> ChessEngine \<Rightarrow> ChessEngine" where
  "handleEngineMessage message s =
     (if message = ''uciok'' then configureEngine s
      else if message = ''readyok'' then s\<lparr>isReady := True\<rparr>
      else s)"

definition buildSearchCommand :: "EngineConfig \<Rightarrow> command" where
  "buildSearchCommand cfg =
     (if timePerMove cfg > 0 then GoMovetime (timePerMove cfg) else GoNodes (nodesPerMove cfg))"

text \<open>The assignment \<open>this.stockfish.onmessage = h\<close>, where the worker exists.\<close>

definition setOnmessage :: "handler \<Rightarrow> ChessEngine \<Rightarrow> ChessEngine" where
  "setOnmessage h s =
     (case stockfish s of
        None \<Rightarrow> s
      | Some w \<Rightarrow> s\<lparr>stockfish := Some (w\<lparr>onmessage := h\<rparr>)\<rparr>)"

text \<open>\<open>resolve\<close> and the armed timer: only a pending promise changes.\<close>

definition settle :: "nat \<Rightarrow> promise \<Rightarrow> ChessEngine \<Rightarrow> ChessEngine" where
  "settle rid p s =
     (if rid < length (promises s) \<and> promises s ! rid = Pending
      then s\<lparr>promises := (promises s)[rid := p]\<rparr> else s)"

subsection \<open>\<open>getBestMove\<close>\<close>

text \<open>
  The value built in the \<open>bestmove\<close> branch of \<open>messageHandler\<close>:
  \<open>finalMove\<close>, \<open>moveEvaluation\<close> and \<open>engineMove\<close>.
\<close>

definition engineMove ::
    "EngineConfig \<Rightarrow> real \<Rightarrow> real \<Rightarrow> string \<Rightarrow> string list \<Rightarrow> int \<Rightarrow> int \<Rightarrow> EngineMove" where
  "engineMove cfg randomFactor rnd bestMove moves evaluation_v depth_v =
     (let finalMove = applyHumanLikeInaccuracy cfg randomFactor rnd bestMove moves;
          moveEvaluation = \<lparr> eval_move = finalMove, score = evaluation_v, depth = depth_v,
            confidence = evaluateConfidence evaluation_v depth_v,
            explanation = generateExplanation finalMove evaluation_v \<rparr>
      in \<lparr> move = finalMove, evaluation = moveEvaluation,
           isDeliberate = (finalMove \<noteq> Some bestMove) \<rparr>)"

text \<open>
  One run of the \<open>messageHandler\<close> closure of request \<open>rid\<close> on a line of output.
  \<open>randomFactor\<close>, \<open>rnd\<close> and \<open>delayRnd\<close> are the draws of \<open>applyHumanLikeInaccuracy\<close>,
  \<open>selectSuboptimalMove\<close> and \<open>calculateMoveDelay\<close>.
\<close>

definition messageHandler ::
    "nat \<Rightarrow> string list \<Rightarrow> int \<Rightarrow> int \<Rightarrow> string \<Rightarrow> real \<Rightarrow> real \<Rightarrow> real
      \<Rightarrow> ChessEngine \<Rightarrow> ChessEngine" where
  "messageHandler rid moves evaluation_v depth_v message randomFactor rnd delayRnd s =
     (let info = startsWith message ''info depth'';
          depth1 = (if info then (case depthMatch message of
                                    Some g \<Rightarrow> parseInt g | None \<Rightarrow> depth_v) else depth_v);
          evaluation1 = (if info then (case scoreMatch message of
                                    Some g \<Rightarrow> parseInt g | None \<Rightarrow> evaluation_v) else evaluation_v);
          s1 = setOnmessage (SearchHandler rid moves evaluation1 depth1) s
      in if startsWith message ''bestmove'' then
           let s2 = setOnmessage NoHandler s1 in
           (case moveMatch message of
              Some bestMove \<Rightarrow>
                settle rid
                  (ResolveAfter (calculateMoveDelay (config s2) delayRnd)
                     (engineMove (config s2) randomFactor rnd bestMove moves evaluation1 depth1))
                  s2
            | None \<Rightarrow> settle rid ResolvedNull s2)
         else s1)"

text \<open>
  The executor of the promise of \<open>getBestMove\<close>; \<open>moves\<close> is what
  \<open>chessUtils.getLegalMoves()\<close> returns when it runs. Without a worker the assignment
  to \<open>this.stockfish.onmessage\<close> throws, which rejects the promise.
\<close>

definition startSearch :: "nat \<Rightarrow> string \<Rightarrow> string list \<Rightarrow> ChessEngine \<Rightarrow> ChessEngine" where
  "startSearch rid fen moves s =
     (if length moves = 0 then settle rid ResolvedNull s
      else
        let s1 = sendCommand (PositionFen fen) s;
            searchCommand = buildSearchCommand (config s1)
        in (case stockfish s1 of
              None \<Rightarrow> settle rid Rejected s1
            | Some w \<Rightarrow> sendCommand searchCommand (setOnmessage (SearchHandler rid moves 0 0) s1)))"

text \<open>
  \<open>getBestMove\<close> returns its promise at once. When the engine is ready the executor
  has run by then; otherwise the call is suspended in \<open>waitForReady\<close>.
\<close>

definition getBestMove :: "string \<Rightarrow> string list \<Rightarrow> ChessEngine \<Rightarrow> nat \<times> ChessEngine" where
  "getBestMove fen moves s =
     (let rid = length (promises s);
          s0 = s\<lparr>promises := promises s @ [Pending]\<rparr>
      in if \<not> isReady s0 then (rid, s0\<lparr>waiting := waiting s0 @ [(rid, fen)]\<rparr>)
         else (rid, startSearch rid fen moves s0))"

text \<open>One \<open>checkReady\<close> timer callback of the suspended call \<open>rid\<close>.\<close>

definition checkReady :: "nat \<Rightarrow> string list \<Rightarrow> ChessEngine \<Rightarrow> ChessEngine" where
  "checkReady rid moves s =
     (if isReady s then
        (case map_of (waiting s) rid of
           None \<Rightarrow> s
         | Some fen \<Rightarrow>
             startSearch rid fen moves (s\<lparr>waiting := filter (\<lambda>e. fst e \<noteq> rid) (waiting s)\<rparr>))
      else s)"

text \<open>A line of output arrives: the worker calls whatever \<open>onmessage\<close> holds.\<close>

definition deliver :: "string \<Rightarrow> real \<Rightarrow> real \<Rightarrow> real \<Rightarrow> ChessEngine \<Rightarrow> ChessEngine" where
  "deliver message randomFactor rnd delayRnd s =
     (case stockfish s of
        None \<Rightarrow> s
      | Some w \<Rightarrow>
          (case onmessage w of
             NoHandler \<Rightarrow> s
           | EngineMessageHandler \<Rightarrow> handleEngineMessage message s
           | SearchHandler rid moves evaluation_v depth_v \<Rightarrow>
               messageHandler rid moves evaluation_v depth_v message randomFactor rnd delayRnd s))"

subsection \<open>Runs of the engine object\<close>

datatype event =
    CallGetBestMove string "string list"
  | CallUpdateConfig PartialConfig
  | EngineLine string real real real
  | ReadyPoll nat "string list"

fun step :: "ChessEngine \<Rightarrow> event \<Rightarrow> ChessEngine" where
  "step s (CallGetBestMove fen moves) = snd (getBestMove fen moves s)"
| "step s (CallUpdateConfig newConfig) = updateConfig newConfig s"
| "step s (EngineLine message randomFactor rnd delayRnd) =
     deliver message randomFactor rnd delayRnd s"
| "step s (ReadyPoll rid moves) = checkReady rid moves s"

definition run :: "ChessEngine \<Rightarrow> event list \<Rightarrow> ChessEngine" where
  "run s evs = foldl step s evs"

text \<open>The option value in force after a list of commands: the last one set.\<close>

definition optionInForce :: "string \<Rightarrow> command list \<Rightarrow> real option" where
  "optionInForce name cmds =
     foldl (\<lambda>acc c. case c of SetOption n v \<Rightarrow> if n = name then Some v else acc | _ \<Rightarrow> acc)
       None cmds"

text \<open>The request a handler resolves, if any.\<close>

fun handlerRequest :: "handler \<Rightarrow> nat option" where
  "handlerRequest (SearchHandler rid moves evaluation_v depth_v) = Some rid"
| "handlerRequest NoHandler = None"
| "handlerRequest EngineMessageHandler = None"

text \<open>
  An engine that has completed the handshake: constructed with the defaults, the
  worker loaded, \<open>uciok\<close> and \<open>readyok\<close> received.
\<close>

definition bootedEngine :: ChessEngine where
  "bootedEngine =
     run (initializeEngine True (newChessEngine noChange))
       [EngineLine ''uciok'' 0 0 0, EngineLine ''readyok'' 0 0 0]"

section \<open>Notions used to state the properties\<close>

text \<open>The value of the \<open>Skill Level\<close> option in force at the worker of an engine.\<close>

definition skillLevelInForce :: "ChessEngine \<Rightarrow> real option" where
  "skillLevelInForce s =
     (case stockfish s of None \<Rightarrow> None | Some w \<Rightarrow> optionInForce ''Skill Level'' (posted w))"

text \<open>
  A draw \<open>rnd\<close> picks uniformly from \<open>pool\<close>, of size \<open>n\<close>: the result is a member of
  the pool, and the member at position \<open>k\<close> is the result for every draw from
  \<open>k / n\<close> up to \<open>(k + 1) / n\<close>, a margin of \<open>2^-52\<close> of the bound left out at each
  end, where the rounding of the product decides to which side a draw falls. The
  intervals of the members have the same length up to that margin.
\<close>

definition picksUniformly :: "string option \<Rightarrow> real \<Rightarrow> string list \<Rightarrow> bool" where
  "picksUniformly chosen rnd pool \<longleftrightarrow>
     chosen \<in> Some ` set pool
     \<and> (\<forall>k < length pool.
           real k / real (length pool) * (1 + 1 / 2 ^ 52) \<le> rnd
           \<and> rnd < real (k + 1) / real (length pool) * (1 - 1 / 2 ^ 52)
           \<longrightarrow> chosen = Some (pool ! k))"

text \<open>
  A request that nothing can resolve any more: its promise is pending, the call is
  not suspended in \<open>waitForReady\<close>, and the handler in place is not its own.
\<close>

definition orphaned :: "nat \<Rightarrow> ChessEngine \<Rightarrow> bool" where
  "orphaned rid s \<longleftrightarrow>
     rid < length (promises s) \<and> promises s ! rid = Pending
     \<and> rid \<notin> fst ` set (waiting s)
     \<and> (case stockfish s of
           None \<Rightarrow> True
         | Some w \<Rightarrow> handlerRequest (onmessage w) \<noteq> Some rid)"

text \<open>Concrete inputs: the initial position and an engine with one search under way.\<close>

definition startFen :: string where
  "startFen = ''rnbqkbnr/pppppppp/8/8/8/8/PPPPPPPP/RNBQKBNR w KQkq - 0 1''"

definition searchingEngine :: ChessEngine where
  "searchingEngine = snd (getBestMove startFen [''e2e4'', ''d2d4''] bootedEngine)"

text \<open>A progress line of the search that reports a forced mate in one.\<close>

definition mateLine :: string where
  "mateLine = ''info depth 12 seldepth 2 score mate 1 nodes 77 pv h5f7''"

section \<open>Properties of the binary64 rounding\<close>

lemma exponent_bounds:
  assumes "x \<noteq> 0"
  shows "2 powi (exponent x) \<le> \<bar>x\<bar>" and "\<bar>x\<bar> < 2 powi (exponent x + 1)"
proof -
  have "2 powi (exponent x) \<le> \<bar>x\<bar> \<and> \<bar>x\<bar> < 2 powi (exponent x + 1)"
  proof (cases "\<bar>x\<bar> \<ge> 1")
    case True
    define m where "m = \<lfloor>\<bar>x\<bar>\<rfloor>"
    have m: "0 < m" using True by (simp add: m_def)
    have b1: "1 \<le> bitlen m" using m by (simp add: bitlen_alt_def)
    have bb: "2 ^ nat (bitlen m - 1) \<le> m" "m < 2 ^ nat (bitlen m)"
      using bitlen_bounds[OF m] by simp_all
    have e: "exponent x = bitlen m - 1" using True by (simp add: exponent_def m_def)
    have "(2::real) powi (bitlen m - 1) = 2 ^ nat (bitlen m - 1)"
      using b1 by (simp add: power_int_def)
    also have "\<dots> \<le> real_of_int m"
      using bb(1) by (metis of_int_le_iff of_int_numeral of_int_power)
    also have "\<dots> \<le> \<bar>x\<bar>" by (simp add: m_def)
    finally have lo: "2 powi (exponent x) \<le> \<bar>x\<bar>" by (simp add: e)
    have "m + 1 \<le> 2 ^ nat (bitlen m)" using bb(2) by simp
    then have "real_of_int (m + 1) \<le> 2 ^ nat (bitlen m)"
      by (metis of_int_le_iff of_int_numeral of_int_power)
    moreover have "\<bar>x\<bar> < real_of_int (m + 1)" by (simp add: m_def)
    moreover have "(2::real) powi (bitlen m) = 2 ^ nat (bitlen m)"
      using b1 by (simp add: power_int_def)
    ultimately have hi: "\<bar>x\<bar> < 2 powi (exponent x + 1)" by (simp add: e)
    from lo hi show ?thesis ..
  next
    case False
    define y where "y = 1 / \<bar>x\<bar>"
    define m where "m = \<lceil>y\<rceil> - 1"
    have xpos: "0 < \<bar>x\<bar>" using assms by simp
    have y1: "1 < y" using False xpos by (simp add: y_def)
    have m: "0 < m" using y1 by (simp add: m_def less_ceiling_iff)
    have b1: "1 \<le> bitlen m" using m by (simp add: bitlen_alt_def)
    have bb: "2 ^ nat (bitlen m - 1) \<le> m" "m < 2 ^ nat (bitlen m)"
      using bitlen_bounds[OF m] by simp_all
    have e: "exponent x = - bitlen m" using False by (simp add: exponent_def m_def y_def)
    have ylo: "real_of_int m < y" by (simp add: m_def) linarith
    have yhi: "y \<le> real_of_int (m + 1)" by (simp add: m_def)
    have "m + 1 \<le> 2 ^ nat (bitlen m)" using bb(2) by simp
    then have "real_of_int (m + 1) \<le> 2 ^ nat (bitlen m)"
      by (metis of_int_le_iff of_int_numeral of_int_power)
    with yhi have "y \<le> 2 ^ nat (bitlen m)" by linarith
    then have "1 / 2 ^ nat (bitlen m) \<le> \<bar>x\<bar>"
      using xpos by (simp add: y_def field_simps)
    moreover have "(2::real) powi (- bitlen m) = 1 / 2 ^ nat (bitlen m)"
      using b1 by (simp add: power_int_def field_simps)
    ultimately have lo: "2 powi (exponent x) \<le> \<bar>x\<bar>" by (simp add: e)
    have "(2::real) ^ nat (bitlen m - 1) \<le> real_of_int m"
      using bb(1) by (metis of_int_le_iff of_int_numeral of_int_power)
    with ylo have "(2::real) ^ nat (bitlen m - 1) < y" by linarith
    then have "\<bar>x\<bar> < 1 / 2 ^ nat (bitlen m - 1)"
      using xpos by (simp add: y_def field_simps)
    moreover have "(2::real) powi (- bitlen m + 1) = 1 / 2 ^ nat (bitlen m - 1)"
      using b1 by (simp add: power_int_def field_simps nat_diff_distrib)
    ultimately have hi: "\<bar>x\<bar> < 2 powi (exponent x + 1)" by (simp add: e)
    from lo hi show ?thesis ..
  qed
  then show "2 powi (exponent x) \<le> \<bar>x\<bar>" and "\<bar>x\<bar> < 2 powi (exponent x + 1)"
    by simp_all
qed

lemma roundHalfEven_error: "\<bar>real_of_int (roundHalfEven y) - y\<bar> \<le> 1 / 2"
proof -
  have "real_of_int \<lfloor>y\<rfloor> \<le> y" "y < real_of_int \<lfloor>y\<rfloor> + 1" by linarith+
  then show ?thesis by (auto simp: roundHalfEven_def Let_def)
qed

text \<open>The relative error of one rounding is at most \<open>2^-53\<close>.\<close>

lemma fl_error: "\<bar>fl x - x\<bar> \<le> \<bar>x\<bar> / 2 ^ 53"
proof (cases "x = 0")
  case True
  then show ?thesis by (simp add: fl_def)
next
  case False
  define u where "u = ulp x"
  have upos: "0 < u" by (simp add: u_def ulp_def)
  have "fl x - x = (real_of_int (roundHalfEven (x / u)) - x / u) * u"
    using False upos by (simp add: fl_def u_def field_simps)
  then have "\<bar>fl x - x\<bar> = \<bar>real_of_int (roundHalfEven (x / u)) - x / u\<bar> * u"
    using upos by (simp add: abs_mult)
  also have "\<dots> \<le> (1 / 2) * u"
    using roundHalfEven_error[of "x / u"] upos by (intro mult_right_mono) simp_all
  also have "(1 / 2) * u = 2 powi (exponent x) / 2 ^ 53"
    by (simp add: u_def ulp_def power_int_diff)
  also have "\<dots> \<le> \<bar>x\<bar> / 2 ^ 53"
    using exponent_bounds(1)[OF False] by (simp add: divide_right_mono)
  finally show ?thesis .
qed

lemmas fl_eval = fl_def ulp_def exponent_def compute_bitlen roundHalfEven_def Let_def

lemma fl_zero: "fl 0 = 0"
  by (simp add: fl_def)

lemma fl_bounds:
  assumes "0 \<le> x"
  shows "x * (1 - 1 / 2 ^ 53) \<le> fl x" and "fl x \<le> x * (1 + 1 / 2 ^ 53)"
proof -
  define d where "d = x / 2 ^ 53"
  have "\<bar>fl x - x\<bar> \<le> d" using fl_error[of x] assms by (simp add: d_def)
  then have "x - d \<le> fl x" "fl x \<le> x + d" by linarith+
  moreover have "x * (1 - 1 / 2 ^ 53) = x - d" "x * (1 + 1 / 2 ^ 53) = x + d"
    by (simp_all add: d_def algebra_simps)
  ultimately show "x * (1 - 1 / 2 ^ 53) \<le> fl x" and "fl x \<le> x * (1 + 1 / 2 ^ 53)"
    by simp_all
qed

lemma fl_pos:
  assumes "0 < x"
  shows "0 < fl x"
proof -
  have "0 < x * (1 - 1 / 2 ^ 53)" using assms by (intro mult_pos_pos) simp_all
  moreover have "x * (1 - 1 / 2 ^ 53) \<le> fl x" using fl_bounds(1)[of x] assms by simp
  ultimately show ?thesis by linarith
qed

text \<open>
  The rounding at some points: the products \<open>0.7 * 20\<close> and
  \<open>0.6666666666666666 * 3\<close> round up to the integers 14 and 2; the smallest binary64
  ratings above 1500 and 750 pass the tier tests as the code computes them, and 1500
  and 750 do not.
\<close>

lemma fl_values:
  "fl (fl (7 / 10) * 20) = 14"
  "fl (fl (2 / 3) * 3) = 2"
  by (simp_all add: fl_eval)

lemma tier_tests_at_the_boundary:
  "fl (1500 / 2500) = fl (6 / 10)" "fl ((1500 + 1 / 2 ^ 42) / 2500) > fl (6 / 10)"
  "fl (750 / 2500) = fl (3 / 10)" "fl ((750 + 1 / 2 ^ 43) / 2500) > fl (3 / 10)"
  by (simp_all add: fl_eval)

section \<open>Properties of the pure functions\<close>

subsection \<open>Rating to skill level\<close>

text \<open>
  Claim C6. \<open>calculateSkillLevel\<close> is monotonic (for ratings \<open>r1 < r2\<close> the level of
  \<open>r1\<close> is at most the level of \<open>r2\<close>), its result lies in \<open>[0, 20]\<close>, every rating
  below the lowest band (below 800) maps to 0 and every rating above the highest band
  (from 2400 on) maps to 20.
\<close>

theorem calculateSkillLevel_monotone_bounded:
  "(r1 < r2 \<longrightarrow> calculateSkillLevel r1 \<le> calculateSkillLevel r2)
   \<and> 0 \<le> calculateSkillLevel r \<and> calculateSkillLevel r \<le> 20
   \<and> (r < 800 \<longrightarrow> calculateSkillLevel r = 0)
   \<and> (2400 \<le> r \<longrightarrow> calculateSkillLevel r = 20)"
  unfolding calculateSkillLevel_def by (simp split: if_splits)

theorem calculateSkillLevel_monotone_bounded_witness:
  "(1150::real) < 1900 \<and> calculateSkillLevel 1150 \<le> calculateSkillLevel 1900
   \<and> calculateSkillLevel 1150 = 4 \<and> calculateSkillLevel 1900 = 12
   \<and> (799::real) < 800 \<and> calculateSkillLevel 799 = 0
   \<and> (2400::real) \<le> 2400 \<and> calculateSkillLevel 2400 = 20"
  using calculateSkillLevel_monotone_bounded [of 1150 1900 799]
    calculateSkillLevel_monotone_bounded [of 1150 1900 2400]
  by (simp add: calculateSkillLevel_def)

subsection \<open>Absolute-magnitude confidence\<close>

text \<open>
  Claim C9. \<open>evaluateConfidence\<close> compares the absolute value of the score with the
  thresholds 500, 200 and -100; as an absolute value is never below -100, the third
  branch always applies when the first two do not, and \<open>Blunder\<close> is never returned.
\<close>

theorem evaluateConfidence_never_blunder:
  "evaluateConfidence sc dp \<noteq> Blunder
   \<and> evaluateConfidence sc dp =
       (if \<bar>sc\<bar> > 500 then Best else if \<bar>sc\<bar> > 200 then Good else Questionable)"
  unfolding evaluateConfidence_def by (auto simp: Let_def)

subsection \<open>Delta classification\<close>

text \<open>
  Claim C5. \<open>analyzeMoveQuality\<close> takes the evaluation change from the mover's side
  (\<open>currentEval - prevEval\<close> for the player, \<open>prevEval - currentEval\<close> otherwise) and
  each of the seven tiers is returned on exactly one interval of the change, the
  intervals covering the integers without overlap: above 200 brilliant, 101..200
  excellent, 1..100 good, -49..0 move, -99..-50 inaccuracy, -199..-100 mistake, at most
  -200 blunder. A change of 200 is excellent, of -200 a blunder, and 50 to -180 for the
  mover is a change of -230, a blunder.
\<close>

theorem analyzeMoveQuality_partition:
  "(let evalChange = (if isPlayerMove then currentEval - prevEval else prevEval - currentEval);
        t = quality_type (analyzeMoveQuality prevEval currentEval isPlayerMove)
    in (t = Brilliant \<longleftrightarrow> 200 < evalChange)
     \<and> (t = Excellent \<longleftrightarrow> 100 < evalChange \<and> evalChange \<le> 200)
     \<and> (t = GoodT \<longleftrightarrow> 0 < evalChange \<and> evalChange \<le> 100)
     \<and> (t = Move \<longleftrightarrow> - 50 < evalChange \<and> evalChange \<le> 0)
     \<and> (t = Inaccuracy \<longleftrightarrow> - 100 < evalChange \<and> evalChange \<le> - 50)
     \<and> (t = Mistake \<longleftrightarrow> - 200 < evalChange \<and> evalChange \<le> - 100)
     \<and> (t = BlunderT \<longleftrightarrow> evalChange \<le> - 200))
   \<and> quality_type (analyzeMoveQuality 0 200 True) = Excellent
   \<and> quality_type (analyzeMoveQuality 0 (- 200) True) = BlunderT
   \<and> (- 180) - 50 = (- 230 :: int)
   \<and> quality_type (analyzeMoveQuality 50 (- 180) True) = BlunderT"
  unfolding analyzeMoveQuality_def Let_def by simp

theorem analyzeMoveQuality_partition_witness:
  "quality_type (analyzeMoveQuality 30 (- 40) False) = GoodT
   \<and> quality_type (analyzeMoveQuality 30 (- 40) True) = Inaccuracy"
  using analyzeMoveQuality_partition [of False "- 40" 30]
    analyzeMoveQuality_partition [of True "- 40" 30]
  by (simp add: Let_def)

subsection \<open>Substitute chooser\<close>

lemma floor_rounded_product:
  assumes rnd: "0 \<le> rnd" "rnd \<le> 1 - 1 / 2 ^ 53" and m: "0 < m"
  shows "0 \<le> \<lfloor>fl (rnd * real m)\<rfloor>" and "\<lfloor>fl (rnd * real m)\<rfloor> < int m"
proof -
  define y where "y = rnd * real m"
  define u :: real where "u = 1 / 2 ^ 53"
  have y0: "0 \<le> y" using rnd(1) by (simp add: y_def)
  have lo: "y * (1 - u) \<le> fl y" and hi: "fl y \<le> y * (1 + u)"
    using fl_bounds[OF y0] by (simp_all add: u_def)
  have "0 \<le> y * (1 - u)" using y0 by (intro mult_nonneg_nonneg) (simp_all add: u_def)
  with lo have f0: "0 \<le> fl y" by linarith
  have "y \<le> (1 - u) * real m"
    unfolding y_def using rnd(2) by (intro mult_right_mono) (simp_all add: u_def)
  then have "y * (1 + u) \<le> ((1 - u) * real m) * (1 + u)"
    by (intro mult_right_mono) (simp_all add: u_def)
  also have "\<dots> = real m * ((1 - u) * (1 + u))" by (simp add: algebra_simps)
  also have "\<dots> < real m * 1"
    using m by (intro mult_strict_left_mono) (simp_all add: u_def)
  finally have "y * (1 + u) < real m" by simp
  with hi have f1: "fl y < real m" by linarith
  show "0 \<le> \<lfloor>fl (rnd * real m)\<rfloor>" using f0 by (simp add: y_def)
  show "\<lfloor>fl (rnd * real m)\<rfloor> < int m" using f1 by (simp add: y_def floor_less_iff)
qed

lemma floor_rounded_product_inside:
  assumes k: "k < m"
    and iv1: "real k / real m * (1 + 1 / 2 ^ 52) \<le> rnd"
    and iv2: "rnd < real (k + 1) / real m * (1 - 1 / 2 ^ 52)"
  shows "\<lfloor>fl (rnd * real m)\<rfloor> = int k"
proof -
  define y where "y = rnd * real m"
  define u :: real where "u = 1 / 2 ^ 53"
  have mpos: "0 < real m" using k by simp
  have "0 \<le> real k / real m * (1 + 1 / 2 ^ 52)" by simp
  with iv1 have rnd0: "0 \<le> rnd" by linarith
  have y0: "0 \<le> y" using rnd0 by (simp add: y_def)
  have lo: "y * (1 - u) \<le> fl y" and hi: "fl y \<le> y * (1 + u)"
    using fl_bounds[OF y0] by (simp_all add: u_def)
  have "(real k / real m * (1 + 1 / 2 ^ 52)) * real m \<le> rnd * real m"
    using iv1 mpos by (intro mult_right_mono) simp_all
  then have ylo: "real k * (1 + 2 * u) \<le> y" using mpos by (simp add: y_def u_def)
  have "rnd * real m < (real (k + 1) / real m * (1 - 1 / 2 ^ 52)) * real m"
    using iv2 mpos by (intro mult_strict_right_mono) simp_all
  then have yhi: "y < real (k + 1) * (1 - 2 * u)" using mpos by (simp add: y_def u_def)
  have c1: "1 \<le> (1 + 2 * u) * (1 - u)" and c2: "(1 - 2 * u) * (1 + u) \<le> 1"
    by (simp_all add: u_def)
  have "real k * 1 \<le> real k * ((1 + 2 * u) * (1 - u))"
    using c1 by (intro mult_left_mono) simp_all
  also have "\<dots> = (real k * (1 + 2 * u)) * (1 - u)" by (simp add: algebra_simps)
  also have "\<dots> \<le> y * (1 - u)"
    using ylo by (intro mult_right_mono) (simp_all add: u_def)
  finally have "real k \<le> fl y" using lo by simp
  moreover have "fl y < real k + 1"
  proof -
    have "y * (1 + u) < (real (k + 1) * (1 - 2 * u)) * (1 + u)"
      using yhi by (intro mult_strict_right_mono) (simp_all add: u_def)
    also have "\<dots> = real (k + 1) * ((1 - 2 * u) * (1 + u))" by (simp add: algebra_simps)
    also have "\<dots> \<le> real (k + 1) * 1"
      using c2 by (intro mult_left_mono) simp_all
    finally show ?thesis using hi by simp
  qed
  ultimately have "\<lfloor>fl y\<rfloor> = int k" by (simp add: floor_eq_iff)
  then show ?thesis by (simp add: y_def)
qed

lemma arrayAt_picksUniformly:
  assumes rnd: "0 \<le> rnd" "rnd \<le> 1 - 1 / 2 ^ 53" and m: "0 < m" "m \<le> length xs"
  shows "picksUniformly (arrayAt xs \<lfloor>fl (rnd * real m)\<rfloor>) rnd (take m xs)"
proof -
  let ?i = "\<lfloor>fl (rnd * real m)\<rfloor>"
  have len: "length (take m xs) = m" using m by simp
  have fl: "0 \<le> ?i" "?i < int m"
    using floor_rounded_product[OF rnd m(1)] by simp_all
  then have idx: "nat ?i < m" by linarith
  have val: "arrayAt xs ?i = Some (xs ! nat ?i)"
    using fl m by (simp add: arrayAt_def)
  have "take m xs ! nat ?i \<in> set (take m xs)"
    using idx len by (metis nth_mem)
  then have mem: "arrayAt xs ?i \<in> Some ` set (take m xs)"
    using val idx by simp
  have pick: "arrayAt xs ?i = Some (take m xs ! k)"
    if k: "k < m" and iv: "real k / real m * (1 + 1 / 2 ^ 52) \<le> rnd"
      "rnd < real (k + 1) / real m * (1 - 1 / 2 ^ 52)" for k
  proof -
    have "?i = int k" by (rule floor_rounded_product_inside[OF k iv])
    then show ?thesis using k val by simp
  qed
  show ?thesis unfolding picksUniformly_def len using mem pick by blast
qed

lemma selectSuboptimalMove_member:
  assumes "0 \<le> rnd" "rnd \<le> 1 - 1 / 2 ^ 53"
    and alt: "filter (\<lambda>m. m \<noteq> bestMove) legalMoves \<noteq> []"
  shows "selectSuboptimalMove cfg rnd bestMove legalMoves
           \<in> Some ` set (filter (\<lambda>m. m \<noteq> bestMove) legalMoves)"
proof -
  let ?alts = "filter (\<lambda>m. m \<noteq> bestMove) legalMoves"
  have n: "0 < length ?alts" using alt by simp
  have sub: "Some ` set (take m ?alts) \<subseteq> Some ` set ?alts" for m
    by (auto dest: in_set_takeD)
  have p: "picksUniformly (arrayAt ?alts \<lfloor>fl (rnd * real m)\<rfloor>) rnd (take m ?alts)"
    if "0 < m" "m \<le> length ?alts" for m
    using arrayAt_picksUniformly[OF assms(1,2) that] .
  have "arrayAt ?alts \<lfloor>fl (rnd * real m)\<rfloor> \<in> Some ` set ?alts"
    if "0 < m" "m \<le> length ?alts" for m
    using p[OF that] sub[of m] by (auto simp: picksUniformly_def)
  from this[of "min 3 (length ?alts)"] this[of "min 5 (length ?alts)"] this[of "length ?alts"] n
  show ?thesis by (simp add: selectSuboptimalMove_def Let_def)
qed

text \<open>
  The model rounds where the code does: at rating 2400 the draw
  \<open>0.6666666666666666\<close>, the binary64 value of \<open>2 / 3\<close>, lies below \<open>2 / 3\<close> and
  yet selects the third of the alternatives, as the product rounds to 2.
\<close>

lemma selectSuboptimalMove_at_interval_end:
  "fl (2 / 3) < 2 / 3"
  "selectSuboptimalMove (defaultConfig\<lparr>eloRating := 2400\<rparr>) (fl (2 / 3)) ''e2e4''
     [''e2e4'', ''d2d4'', ''g1f3'', ''c2c4'', ''b1c3''] = Some ''c2c4''"
  by (simp_all add: selectSuboptimalMove_def arrayAt_def fl_eval)

text \<open>
  Claim C7. For a draw \<open>rnd\<close> of \<open>Math.random\<close> (a binary64 value with
  \<open>0 \<le> rnd < 1\<close>, hence at most \<open>1 - 2^-53\<close>), \<open>selectSuboptimalMove\<close> removes the
  best move from the legal moves and returns the best move itself when nothing
  remains; otherwise, when \<open>eloRating / 2500 > 0.6\<close> it picks uniformly from the
  first 3 of the remaining moves, else when \<open>eloRating / 2500 > 0.3\<close> from the first
  5, and else from all remaining moves. The ranking is the order of the legal-move
  list.
\<close>

theorem selectSuboptimalMove_tiers:
  assumes "0 \<le> rnd" and "rnd \<le> 1 - 1 / 2 ^ 53"
  shows "(let alternativeMoves = filter (\<lambda>m. m \<noteq> bestMove) legalMoves;
              chosen = selectSuboptimalMove cfg rnd bestMove legalMoves
          in (alternativeMoves = [] \<longrightarrow> chosen = Some bestMove)
           \<and> (alternativeMoves \<noteq> [] \<and> eloRating cfg / 2500 > 0.6 \<longrightarrow>
                picksUniformly chosen rnd (take 3 alternativeMoves))
           \<and> (alternativeMoves \<noteq> [] \<and> \<not> eloRating cfg / 2500 > 0.6 \<and> eloRating cfg / 2500 > 0.3 \<longrightarrow>
                picksUniformly chosen rnd (take 5 alternativeMoves))
           \<and> (alternativeMoves \<noteq> [] \<and> \<not> eloRating cfg / 2500 > 0.3 \<longrightarrow>
                picksUniformly chosen rnd alternativeMoves))"
proof -
  let ?alts = "filter (\<lambda>m. m \<noteq> bestMove) legalMoves"
  have p: "picksUniformly (arrayAt ?alts \<lfloor>fl (rnd * real (min j (length ?alts)))\<rfloor>) rnd
             (take j ?alts)"
    if "?alts \<noteq> []" "0 < j" for j
  proof -
    have "0 < min j (length ?alts)" "min j (length ?alts) \<le> length ?alts" using that by simp_all
    from arrayAt_picksUniformly[OF assms this]
    show ?thesis by (simp add: min_def split: if_splits)
  qed
  have q: "picksUniformly (arrayAt ?alts \<lfloor>fl (rnd * real (length ?alts))\<rfloor>) rnd ?alts"
    if "?alts \<noteq> []"
  proof -
    have "0 < length ?alts" using that by simp
    from arrayAt_picksUniformly[OF assms this, of ?alts] show ?thesis by simp
  qed
  show ?thesis
    unfolding Let_def
  proof (intro conjI impI)
    assume "?alts = []"
    then show "selectSuboptimalMove cfg rnd bestMove legalMoves = Some bestMove"
      by (simp add: selectSuboptimalMove_def)
  next
    assume "?alts \<noteq> [] \<and> eloRating cfg / 2500 > 0.6"
    then show "picksUniformly (selectSuboptimalMove cfg rnd bestMove legalMoves) rnd (take 3 ?alts)"
      using p[of 3] by (simp add: selectSuboptimalMove_def Let_def)
  next
    assume "?alts \<noteq> [] \<and> \<not> eloRating cfg / 2500 > 0.6 \<and> eloRating cfg / 2500 > 0.3"
    then show "picksUniformly (selectSuboptimalMove cfg rnd bestMove legalMoves) rnd (take 5 ?alts)"
      using p[of 5] by (simp add: selectSuboptimalMove_def Let_def)
  next
    assume "?alts \<noteq> [] \<and> \<not> eloRating cfg / 2500 > 0.3"
    then show "picksUniformly (selectSuboptimalMove cfg rnd bestMove legalMoves) rnd ?alts"
      using q by (simp add: selectSuboptimalMove_def Let_def)
  qed
qed

theorem selectSuboptimalMove_tiers_witness:
  "(0::real) \<le> 1 / 2 \<and> (1 / 2 :: real) \<le> 1 - 1 / 2 ^ 53
   \<and> filter (\<lambda>m. m \<noteq> ''e2e4'') [''e2e4'', ''d2d4'', ''g1f3'', ''c2c4'', ''b1c3'']
       = [''d2d4'', ''g1f3'', ''c2c4'', ''b1c3'']
   \<and> eloRating (defaultConfig\<lparr>eloRating := 2400\<rparr>) / 2500 > 0.6
   \<and> picksUniformly
       (selectSuboptimalMove (defaultConfig\<lparr>eloRating := 2400\<rparr>) (1 / 2) ''e2e4''
          [''e2e4'', ''d2d4'', ''g1f3'', ''c2c4'', ''b1c3''])
       (1 / 2) [''d2d4'', ''g1f3'', ''c2c4'']
   \<and> selectSuboptimalMove (defaultConfig\<lparr>eloRating := 2400\<rparr>) (1 / 2) ''e2e4''
          [''e2e4'', ''d2d4'', ''g1f3'', ''c2c4'', ''b1c3''] = Some ''g1f3''"
proof -
  have a: "(0::real) \<le> 1 / 2" and b: "(1 / 2 :: real) \<le> 1 - 1 / 2 ^ 53" by simp_all
  have f: "filter (\<lambda>m. m \<noteq> ''e2e4'') [''e2e4'', ''d2d4'', ''g1f3'', ''c2c4'', ''b1c3'']
       = [''d2d4'', ''g1f3'', ''c2c4'', ''b1c3'']" by simp
  have e: "eloRating (defaultConfig\<lparr>eloRating := 2400\<rparr>) / 2500 > 0.6" by simp
  have u: "picksUniformly
       (selectSuboptimalMove (defaultConfig\<lparr>eloRating := 2400\<rparr>) (1 / 2) ''e2e4''
          [''e2e4'', ''d2d4'', ''g1f3'', ''c2c4'', ''b1c3''])
       (1 / 2) [''d2d4'', ''g1f3'', ''c2c4'']"
    using selectSuboptimalMove_tiers [OF a b, of "''e2e4''"
        "[''e2e4'', ''d2d4'', ''g1f3'', ''c2c4'', ''b1c3'']" "defaultConfig\<lparr>eloRating := 2400\<rparr>"]
    by (simp add: Let_def)
  have s: "selectSuboptimalMove (defaultConfig\<lparr>eloRating := 2400\<rparr>) (1 / 2) ''e2e4''
          [''e2e4'', ''d2d4'', ''g1f3'', ''c2c4'', ''b1c3''] = Some ''g1f3''"
    by (simp add: selectSuboptimalMove_def arrayAt_def fl_eval)
  from a b f e u s show ?thesis by (intro conjI)
qed

subsection \<open>Substitution decision\<close>

text \<open>
  Claim C3. With \<open>accuracy = 100\<close>, \<open>applyHumanLikeInaccuracy\<close> returns the best move
  for every rating and every draw, and the \<open>EngineMove\<close> built from it carries that
  move with \<open>isDeliberate = false\<close>.
\<close>

theorem applyHumanLikeInaccuracy_full_accuracy:
  assumes "accuracy cfg = 100"
  shows "applyHumanLikeInaccuracy cfg randomFactor rnd bestMove legalMoves = Some bestMove
       \<and> move (engineMove cfg randomFactor rnd bestMove legalMoves evaluation_v depth_v)
           = Some bestMove
       \<and> isDeliberate (engineMove cfg randomFactor rnd bestMove legalMoves evaluation_v depth_v)
           = False"
  using assms by (simp add: applyHumanLikeInaccuracy_def engineMove_def Let_def)

theorem applyHumanLikeInaccuracy_full_accuracy_witness:
  "accuracy (defaultConfig\<lparr>eloRating := 2400, accuracy := 100\<rparr>) = 100
   \<and> move (engineMove (defaultConfig\<lparr>eloRating := 2400, accuracy := 100\<rparr>) 0.99 0.5 ''e2e4''
        [''e2e4'', ''d2d4'', ''g1f3''] 35 12) = Some ''e2e4''
   \<and> \<not> isDeliberate (engineMove (defaultConfig\<lparr>eloRating := 2400, accuracy := 100\<rparr>) 0.99 0.5
        ''e2e4'' [''e2e4'', ''d2d4'', ''g1f3''] 35 12)"
  using applyHumanLikeInaccuracy_full_accuracy
    [of "defaultConfig\<lparr>eloRating := 2400, accuracy := 100\<rparr>" "0.99" "0.5" "''e2e4''"
        "[''e2e4'', ''d2d4'', ''g1f3'']" 35 12]
  by simp

text \<open>
  The computed probability is the exact product \<open>(accuracy / 100) * min (eloRating /
  2500) 1\<close> up to three roundings: a relative error of at most \<open>2^-51\<close>.
\<close>

lemma finalAccuracy_near:
  assumes "0 \<le> accuracy cfg" and "0 \<le> eloRating cfg"
  shows "\<bar>finalAccuracy cfg - (accuracy cfg / 100) * min (eloRating cfg / 2500) 1\<bar>
           \<le> (accuracy cfg / 100) * min (eloRating cfg / 2500) 1 / 2 ^ 51"
proof -
  define u :: real where "u = 1 / 2 ^ 53"
  define a where "a = accuracy cfg / 100"
  define e where "e = eloRating cfg / 2500"
  define t where "t = min e 1"
  define a' where "a' = fl a"
  define t' where "t' = min (fl e) 1"
  have u: "0 \<le> 1 - u" "0 \<le> 1 + u" by (simp_all add: u_def)
  have a0: "0 \<le> a" and e0: "0 \<le> e" using assms by (simp_all add: a_def e_def)
  have t0: "0 \<le> t" and te: "t \<le> e" and t1: "t \<le> 1" using e0 by (simp_all add: t_def)
  have fa: "a * (1 - u) \<le> a'" "a' \<le> a * (1 + u)"
    using fl_bounds[OF a0] by (simp_all add: a'_def u_def)
  have fe: "e * (1 - u) \<le> fl e" "fl e \<le> e * (1 + u)"
    using fl_bounds[OF e0] by (simp_all add: u_def)
  have "t * (1 - u) \<le> e * (1 - u)" using te u(1) by (intro mult_right_mono)
  with fe(1) have "t * (1 - u) \<le> fl e" by linarith
  moreover have "t * (1 - u) \<le> 1 * 1" using t1 t0 u(1) by (intro mult_mono) (simp_all add: u_def)
  ultimately have tlo: "t * (1 - u) \<le> t'" by (simp add: t'_def)
  have thi: "t' \<le> t * (1 + u)"
  proof (cases "e \<le> 1")
    case True
    then have "t = e" by (simp add: t_def)
    moreover have "t' \<le> fl e" by (simp add: t'_def)
    ultimately show ?thesis using fe(2) by simp
  next
    case False
    then have "t = 1" by (simp add: t_def)
    moreover have "t' \<le> 1" by (simp add: t'_def)
    ultimately show ?thesis by (simp add: u_def)
  qed
  have a'0: "0 \<le> a'" using fa(1) a0 u(1) mult_nonneg_nonneg[of a "1 - u"] by linarith
  have tl0: "0 \<le> t * (1 - u)" using t0 u(1) by (intro mult_nonneg_nonneg)
  have t'0: "0 \<le> t'" using tlo tl0 by linarith
  have p0: "0 \<le> a' * t'" using a'0 t'0 by (intro mult_nonneg_nonneg)
  have plo: "(a * (1 - u)) * (t * (1 - u)) \<le> a' * t'"
    using fa(1) tlo a'0 tl0 by (intro mult_mono)
  have phi: "a' * t' \<le> (a * (1 + u)) * (t * (1 + u))"
    using fa(2) thi t'0 a0 u(2) by (intro mult_mono) simp_all
  have ff: "(a' * t') * (1 - u) \<le> fl (a' * t')" "fl (a' * t') \<le> (a' * t') * (1 + u)"
    using fl_bounds[OF p0] by (simp_all add: u_def)
  have c1: "(1 + u) * (1 + u) * (1 + u) \<le> 1 + 4 * u" and c2: "1 - 4 * u \<le> (1 - u) * (1 - u) * (1 - u)"
    by (simp_all add: u_def)
  have at0: "0 \<le> a * t" using a0 t0 by (intro mult_nonneg_nonneg)
  have "fl (a' * t') \<le> ((a * (1 + u)) * (t * (1 + u))) * (1 + u)"
    using ff(2) phi u(2) mult_right_mono[of "a' * t'" "(a * (1 + u)) * (t * (1 + u))" "1 + u"]
    by linarith
  also have "\<dots> = (a * t) * ((1 + u) * (1 + u) * (1 + u))" by (simp add: algebra_simps)
  also have "\<dots> \<le> (a * t) * (1 + 4 * u)" using c1 at0 by (intro mult_left_mono)
  finally have hi: "fl (a' * t') \<le> a * t + (a * t) * (4 * u)" by (simp add: algebra_simps)
  have "(a * t) * (1 - 4 * u) \<le> (a * t) * ((1 - u) * (1 - u) * (1 - u))"
    using c2 at0 by (intro mult_left_mono)
  also have "\<dots> = ((a * (1 - u)) * (t * (1 - u))) * (1 - u)" by (simp add: algebra_simps)
  also have "\<dots> \<le> (a' * t') * (1 - u)" using plo u(1) by (intro mult_right_mono)
  finally have "(a * t) * (1 - 4 * u) \<le> fl (a' * t')" using ff(1) by linarith
  then have lo: "a * t - (a * t) * (4 * u) \<le> fl (a' * t')" by (simp add: algebra_simps)
  have "\<bar>fl (a' * t') - a * t\<bar> \<le> (a * t) * (4 * u)" using lo hi by linarith
  moreover have "(a * t) * (4 * u) = (a * t) / 2 ^ 51" by (simp add: u_def)
  moreover have "finalAccuracy cfg = fl (a' * t')"
    by (simp add: finalAccuracy_def Let_def a'_def t'_def a_def e_def)
  ultimately have "\<bar>finalAccuracy cfg - a * t\<bar> \<le> (a * t) / 2 ^ 51" by (simp only:)
  then show ?thesis by (simp only: a_def t_def e_def)
qed

lemma finalAccuracy_pos:
  assumes "0 < accuracy cfg" and "0 < eloRating cfg"
  shows "0 < finalAccuracy cfg"
proof -
  have "0 < fl (accuracy cfg / 100)" using assms(1) by (intro fl_pos) simp
  moreover have "0 < min (fl (eloRating cfg / 2500)) 1"
    using fl_pos[of "eloRating cfg / 2500"] assms(2) by simp
  ultimately have "0 < fl (accuracy cfg / 100) * min (fl (eloRating cfg / 2500)) 1"
    by (intro mult_pos_pos)
  then show ?thesis unfolding finalAccuracy_def Let_def by (rule fl_pos)
qed

lemma finalAccuracy_values:
  "eloRating cfg = 700 \<Longrightarrow> accuracy cfg = 65 \<Longrightarrow> finalAccuracy cfg = 6557241057451443 / 2 ^ 55"
  "eloRating cfg = 900 \<Longrightarrow> accuracy cfg = 65 \<Longrightarrow> finalAccuracy cfg = 131730289100587 / 2 ^ 49"
  "eloRating cfg = 1250 \<Longrightarrow> accuracy cfg = 75 \<Longrightarrow> finalAccuracy cfg = 3 / 8"
  by (simp_all add: finalAccuracy_def fl_eval)

text \<open>
  The model rounds where the code does: at rating 900 and accuracy 65 the computed
  probability lies below 0.234, and a draw equal to it is substituted.
\<close>

lemma applyHumanLikeInaccuracy_at_rounded_threshold:
  "(131730289100587 / 2 ^ 49 :: real) < 234 / 1000"
  "applyHumanLikeInaccuracy (defaultConfig\<lparr>eloRating := 900, accuracy := 65\<rparr>)
     (131730289100587 / 2 ^ 49) 0 ''e2e4'' [''e2e4'', ''d2d4'', ''g1f3''] = Some ''d2d4''"
  by (simp_all add: applyHumanLikeInaccuracy_def finalAccuracy_values selectSuboptimalMove_def
      arrayAt_def fl_zero Let_def)

text \<open>
  Claim C4, amended. With \<open>accuracy < 100\<close>, a draw \<open>rnd\<close> of the chooser (a binary64
  value in \<open>0 \<le> rnd < 1\<close>) and at least one legal move other than the best one,
  \<open>applyHumanLikeInaccuracy\<close> returns a move other than the best one exactly when its
  draw is not below (\<open>\<ge>\<close>, not \<open>>\<close>) the probability \<open>finalAccuracy\<close> that the code
  computes in binary64 for \<open>(accuracy / 100) * min (eloRating / 2500) 1\<close>, and then
  returns what \<open>selectSuboptimalMove\<close> returns. The computed probability is within
  \<open>2^-51\<close>, relative, of the exact product. With rating 700 and accuracy 65 it is
  \<open>6557241057451443 / 2^55\<close>, within \<open>2^-55\<close> of 0.182, which leaves 0.818 of the
  draws between 0 and 1.
\<close>

theorem applyHumanLikeInaccuracy_threshold:
  assumes "accuracy cfg < 100" and "0 \<le> rnd" and "rnd \<le> 1 - 1 / 2 ^ 53"
    and "filter (\<lambda>m. m \<noteq> bestMove) legalMoves \<noteq> []"
  shows "(applyHumanLikeInaccuracy cfg randomFactor rnd bestMove legalMoves \<noteq> Some bestMove
            \<longleftrightarrow> randomFactor \<ge> finalAccuracy cfg)
       \<and> (randomFactor \<ge> finalAccuracy cfg \<longrightarrow>
            applyHumanLikeInaccuracy cfg randomFactor rnd bestMove legalMoves
              = selectSuboptimalMove cfg rnd bestMove legalMoves)
       \<and> (0 \<le> accuracy cfg \<and> 0 \<le> eloRating cfg \<longrightarrow>
            \<bar>finalAccuracy cfg - (accuracy cfg / 100) * min (eloRating cfg / 2500) 1\<bar>
              \<le> (accuracy cfg / 100) * min (eloRating cfg / 2500) 1 / 2 ^ 51)
       \<and> (eloRating cfg = 700 \<and> accuracy cfg = 65 \<longrightarrow>
            finalAccuracy cfg = 6557241057451443 / 2 ^ 55
            \<and> \<bar>finalAccuracy cfg - 182 / 1000\<bar> \<le> 1 / 2 ^ 55
            \<and> (applyHumanLikeInaccuracy cfg randomFactor rnd bestMove legalMoves \<noteq> Some bestMove
                 \<longleftrightarrow> randomFactor \<ge> 6557241057451443 / 2 ^ 55))"
proof -
  have "selectSuboptimalMove cfg rnd bestMove legalMoves
           \<in> Some ` set (filter (\<lambda>m. m \<noteq> bestMove) legalMoves)"
    by (rule selectSuboptimalMove_member[OF assms(2,3,4)])
  then have ne: "selectSuboptimalMove cfg rnd bestMove legalMoves \<noteq> Some bestMove" by auto
  have 1: "applyHumanLikeInaccuracy cfg randomFactor rnd bestMove legalMoves \<noteq> Some bestMove
            \<longleftrightarrow> randomFactor \<ge> finalAccuracy cfg"
    using assms(1) ne by (simp add: applyHumanLikeInaccuracy_def not_less)
  have 2: "randomFactor \<ge> finalAccuracy cfg \<Longrightarrow>
            applyHumanLikeInaccuracy cfg randomFactor rnd bestMove legalMoves
              = selectSuboptimalMove cfg rnd bestMove legalMoves"
    using assms(1) by (simp add: applyHumanLikeInaccuracy_def)
  have 3: "\<bar>finalAccuracy cfg - (accuracy cfg / 100) * min (eloRating cfg / 2500) 1\<bar>
              \<le> (accuracy cfg / 100) * min (eloRating cfg / 2500) 1 / 2 ^ 51"
    if "0 \<le> accuracy cfg \<and> 0 \<le> eloRating cfg"
    using that finalAccuracy_near[of cfg] by simp
  have 4: "finalAccuracy cfg = 6557241057451443 / 2 ^ 55"
    if "eloRating cfg = 700 \<and> accuracy cfg = 65"
    using that finalAccuracy_values(1)[of cfg] by simp
  have 5: "\<bar>(6557241057451443 / 2 ^ 55 :: real) - 182 / 1000\<bar> \<le> 1 / 2 ^ 55" by simp
  show ?thesis using 1 2 3 4 5 by (intro conjI impI) simp_all
qed

theorem applyHumanLikeInaccuracy_threshold_witness:
  "accuracy (defaultConfig\<lparr>eloRating := 700, accuracy := 65\<rparr>) < 100
   \<and> (0::real) \<le> 1 / 2 \<and> (1 / 2 :: real) \<le> 1 - 1 / 2 ^ 53
   \<and> filter (\<lambda>m. m \<noteq> ''e2e4'') [''e2e4'', ''d2d4'', ''g1f3''] \<noteq> []
   \<and> applyHumanLikeInaccuracy (defaultConfig\<lparr>eloRating := 700, accuracy := 65\<rparr>)
        (6557241057451443 / 2 ^ 55) (1 / 2) ''e2e4'' [''e2e4'', ''d2d4'', ''g1f3''] \<noteq> Some ''e2e4''
   \<and> applyHumanLikeInaccuracy (defaultConfig\<lparr>eloRating := 700, accuracy := 65\<rparr>)
        (1 / 8) (1 / 2) ''e2e4'' [''e2e4'', ''d2d4'', ''g1f3''] = Some ''e2e4''"
proof -
  let ?c = "defaultConfig\<lparr>eloRating := 700, accuracy := 65\<rparr>"
  have a: "accuracy ?c < 100" by simp
  have b: "(0::real) \<le> 1 / 2" and c: "(1 / 2 :: real) \<le> 1 - 1 / 2 ^ 53" by simp_all
  have d: "filter (\<lambda>m. m \<noteq> ''e2e4'') [''e2e4'', ''d2d4'', ''g1f3''] \<noteq> []" by simp
  have v: "eloRating ?c = 700 \<and> accuracy ?c = 65" by simp
  have i1: "(applyHumanLikeInaccuracy ?c (6557241057451443 / 2 ^ 55) (1 / 2)
        ''e2e4'' [''e2e4'', ''d2d4'', ''g1f3''] \<noteq> Some ''e2e4'')
      \<longleftrightarrow> (6557241057451443 / 2 ^ 55 :: real) \<ge> 6557241057451443 / 2 ^ 55"
    using applyHumanLikeInaccuracy_threshold [OF a b c d, of "6557241057451443 / 2 ^ 55"] v
    by blast
  have i2: "(applyHumanLikeInaccuracy ?c (1 / 8) (1 / 2)
        ''e2e4'' [''e2e4'', ''d2d4'', ''g1f3''] \<noteq> Some ''e2e4'')
      \<longleftrightarrow> (1 / 8 :: real) \<ge> 6557241057451443 / 2 ^ 55"
    using applyHumanLikeInaccuracy_threshold [OF a b c d, of "1 / 8"] v
    by blast
  have s1: "applyHumanLikeInaccuracy ?c (6557241057451443 / 2 ^ 55) (1 / 2)
        ''e2e4'' [''e2e4'', ''d2d4'', ''g1f3''] \<noteq> Some ''e2e4''"
    using i1 by simp
  have s2: "applyHumanLikeInaccuracy ?c (1 / 8) (1 / 2)
        ''e2e4'' [''e2e4'', ''d2d4'', ''g1f3''] = Some ''e2e4''"
    using i2 by simp
  from a b c d s1 s2 show ?thesis by (intro conjI)
qed

text \<open>
  The claim as stated (substitution exactly when the draw exceeds the probability)
  fails where the draw equals the probability: rating 1250 and accuracy 75 give
  0.75 * 0.5 = 0.375, without rounding; the draw 0.375 does not exceed it, and the
  move is substituted.
\<close>

theorem applyHumanLikeInaccuracy_boundary_draw:
  "\<not> (0.375 > (accuracy (defaultConfig\<lparr>eloRating := 1250, accuracy := 75\<rparr>) / 100)
                 * min (eloRating (defaultConfig\<lparr>eloRating := 1250, accuracy := 75\<rparr>) / 2500) (1::real))
   \<and> applyHumanLikeInaccuracy (defaultConfig\<lparr>eloRating := 1250, accuracy := 75\<rparr>) 0.375 0
       ''e2e4'' [''e2e4'', ''d2d4'', ''g1f3''] = Some ''d2d4''"
  by (simp add: applyHumanLikeInaccuracy_def finalAccuracy_values selectSuboptimalMove_def
      arrayAt_def fl_zero Let_def)

subsection \<open>Move delay\<close>

lemma calculateMoveDelay_in_range:
  assumes "0 \<le> eloRating cfg" "eloRating cfg \<le> 2500" "0 \<le> rnd" "rnd \<le> 1"
  shows "500 \<le> calculateMoveDelay cfg rnd \<and> calculateMoveDelay cfg rnd \<le> 3000"
proof -
  define e where "e = 1 - eloRating cfg / 2500"
  define f where "f = 0.5 + rnd * 0.5"
  have e: "0 \<le> e" "e \<le> 1" using assms by (simp_all add: e_def)
  have f: "0 \<le> f" "f \<le> 1" using assms by (simp_all add: f_def)
  have p0: "0 \<le> e * f" using e f by simp
  have p1: "e * f \<le> 1" using e f by (simp add: mult_le_one)
  have "calculateMoveDelay cfg rnd = 500 + 2500 * (e * f)"
    by (simp add: calculateMoveDelay_def Let_def e_def f_def)
  then show ?thesis using p0 p1 by simp
qed

text \<open>
  Claim C2. The delay is meant to lie between 500 and 3000 for every rating from 0 on;
  \<open>calculateMoveDelay\<close> divides the rating by 2500 without the \<open>min\<close> with 1 that
  \<open>applyHumanLikeInaccuracy\<close> applies, so above 2500 the factor is negative: at
  rating 3000 and \<open>Math.random() = 0\<close> the delay is 250, below the base delay.
\<close>

theorem calculateMoveDelay_above_ceiling:
  "calculateMoveDelay (defaultConfig\<lparr>eloRating := 3000\<rparr>) 0 = 250
   \<and> \<not> (500 \<le> calculateMoveDelay (defaultConfig\<lparr>eloRating := 3000\<rparr>) 0)"
  by (simp add: calculateMoveDelay_def)

section \<open>Properties of the engine object\<close>

lemma bootedEngine_eq:
  "bootedEngine = \<lparr> stockfish = Some \<lparr> onmessage = EngineMessageHandler,
       posted = [Uci, IsReady, SetOption ''Skill Level'' 10, SetOption ''Contempt'' 0,
         SetOption ''Move Overhead'' 100, SetOption ''Skill Level'' 8, IsReady] \<rparr>,
     config = defaultConfig, isReady = True, promises = [], waiting = [] \<rparr>"
  by (simp add: bootedEngine_def run_def initializeEngine_def newChessEngine_def sendCommand_def
      deliver_def handleEngineMessage_def configureEngine_def mergeConfig_def noChange_def
      defaultConfig_def calculateSkillLevel_def Let_def)

lemma searchingEngine_eq:
  "searchingEngine = \<lparr> stockfish = Some \<lparr> onmessage = SearchHandler 0 [''e2e4'', ''d2d4''] 0 0,
       posted = [Uci, IsReady, SetOption ''Skill Level'' 10, SetOption ''Contempt'' 0,
         SetOption ''Move Overhead'' 100, SetOption ''Skill Level'' 8, IsReady,
         PositionFen startFen, GoMovetime 1000] \<rparr>,
     config = defaultConfig, isReady = True, promises = [Pending], waiting = [] \<rparr>"
  by (simp add: searchingEngine_def bootedEngine_eq getBestMove_def startSearch_def
      sendCommand_def setOnmessage_def buildSearchCommand_def defaultConfig_def Let_def)

subsection \<open>Skill level sent to the engine\<close>

lemma configureEngine_posts:
  assumes "stockfish s = Some w"
  shows "configureEngine s = s\<lparr>stockfish := Some (w\<lparr>posted := posted w @
           [SetOption ''Skill Level'' (skillLevel (config s)),
            SetOption ''Contempt'' (contempt (config s)),
            SetOption ''Move Overhead'' (moveOverhead (config s)),
            SetOption ''Skill Level'' (of_int (calculateSkillLevel (eloRating (config s)))),
            IsReady]\<rparr>)\<rparr>"
  using assms by (simp add: configureEngine_def sendCommand_def Let_def)

lemma optionInForce_configure:
  "optionInForce ''Skill Level'' (cmds @ [SetOption ''Skill Level'' a, SetOption ''Contempt'' b,
      SetOption ''Move Overhead'' c, SetOption ''Skill Level'' d, IsReady]) = Some d"
  by (simp add: optionInForce_def)

lemma skillLevelInForce_configureEngine:
  assumes "stockfish s = Some w"
  shows "skillLevelInForce (configureEngine s)
           = Some (of_int (calculateSkillLevel (eloRating (config s))))"
  by (simp add: configureEngine_posts[OF assms] skillLevelInForce_def optionInForce_configure)

text \<open>
  Claim C10. Whenever the configuration is applied to a loaded worker (by
  \<open>configureEngine\<close>, on \<open>updateConfig\<close>, or on \<open>uciok\<close> during the handshake), the
  \<open>Skill Level\<close> option in force afterwards is \<open>calculateSkillLevel\<close> of the rating
  then configured; it does not depend on the \<open>skillLevel\<close> field.
\<close>

theorem configureEngine_skill_level_from_rating:
  assumes "stockfish s = Some w"
  shows "skillLevelInForce (configureEngine s)
           = Some (of_int (calculateSkillLevel (eloRating (config s))))
       \<and> skillLevelInForce (updateConfig newConfig s)
           = Some (of_int (calculateSkillLevel (eloRating (mergeConfig (config s) newConfig))))
       \<and> (onmessage w = EngineMessageHandler \<longrightarrow>
            skillLevelInForce (deliver ''uciok'' randomFactor rnd delayRnd s)
              = Some (of_int (calculateSkillLevel (eloRating (config s)))))
       \<and> skillLevelInForce (configureEngine (s\<lparr>config := (config s)\<lparr>skillLevel := k\<rparr>\<rparr>))
           = skillLevelInForce (configureEngine s)"
proof (intro conjI impI)
  show "skillLevelInForce (configureEngine s)
          = Some (of_int (calculateSkillLevel (eloRating (config s))))"
    by (rule skillLevelInForce_configureEngine[OF assms])
  show "skillLevelInForce (updateConfig newConfig s)
          = Some (of_int (calculateSkillLevel (eloRating (mergeConfig (config s) newConfig))))"
    using skillLevelInForce_configureEngine[of "s\<lparr>config := mergeConfig (config s) newConfig\<rparr>" w]
      assms
    by (simp add: updateConfig_def)
  show "skillLevelInForce (deliver ''uciok'' randomFactor rnd delayRnd s)
          = Some (of_int (calculateSkillLevel (eloRating (config s))))"
    if "onmessage w = EngineMessageHandler"
    using that assms skillLevelInForce_configureEngine[OF assms]
    by (simp add: deliver_def handleEngineMessage_def)
  show "skillLevelInForce (configureEngine (s\<lparr>config := (config s)\<lparr>skillLevel := k\<rparr>\<rparr>))
          = skillLevelInForce (configureEngine s)"
    using skillLevelInForce_configureEngine[of "s\<lparr>config := (config s)\<lparr>skillLevel := k\<rparr>\<rparr>" w]
      assms skillLevelInForce_configureEngine[OF assms]
    by simp
qed

theorem configureEngine_skill_level_from_rating_witness:
  "stockfish bootedEngine \<noteq> None
   \<and> skillLevelInForce
       (updateConfig (noChange\<lparr>p_eloRating := Some 2300, p_skillLevel := Some 3\<rparr>) bootedEngine)
       = Some 18"
proof -
  obtain w where w: "stockfish bootedEngine = Some w" by (simp add: bootedEngine_eq)
  have "config bootedEngine = defaultConfig" by (simp add: bootedEngine_eq)
  then show ?thesis
    using w configureEngine_skill_level_from_rating
      [OF w, of "noChange\<lparr>p_eloRating := Some 2300, p_skillLevel := Some 3\<rparr>"]
    by (simp add: mergeConfig_def noChange_def calculateSkillLevel_def)
qed

subsection \<open>Mate scores in progress lines\<close>

lemma mateLine_parse:
  "startsWith mateLine ''info depth''" "\<not> startsWith mateLine ''bestmove''"
  "scoreMatch mateLine = None" "depthMatch mateLine = Some ''12''" "parseInt ''12'' = 12"
  by (simp_all add: mateLine_def startsWith_def scoreMatch_def depthMatch_def captureAt_def
      isDigit_def parseInt_def digitValue_def Let_def)

lemma bestmove_parse:
  "startsWith ''bestmove h5f7'' ''bestmove''" "\<not> startsWith ''bestmove h5f7'' ''info depth''"
  "moveMatch ''bestmove h5f7'' = Some ''h5f7''"
  by (simp_all add: startsWith_def moveMatch_def captureAt_def isWordChar_def Let_def)

text \<open>
  Claim C8, amended. A progress line in which the pattern \<open>score cp (-?\d+)\<close> finds
  nothing, as a line that reports \<open>score mate N\<close>, leaves the recorded evaluation as it
  was (0 when no centipawn line came before); the handler only takes the depth from it.
  No mate score is normalised.
\<close>

theorem messageHandler_ignores_mate_score:
  assumes "scoreMatch message = None" and "stockfish s = Some w"
    and "\<not> startsWith message ''bestmove''"
  shows "messageHandler rid moves evaluation_v depth_v message randomFactor rnd delayRnd s =
     s\<lparr>stockfish := Some (w\<lparr>onmessage := SearchHandler rid moves evaluation_v
        (if startsWith message ''info depth''
         then (case depthMatch message of Some g \<Rightarrow> parseInt g | None \<Rightarrow> depth_v)
         else depth_v)\<rparr>)\<rparr>"
  using assms by (simp add: messageHandler_def setOnmessage_def Let_def)

theorem messageHandler_ignores_mate_score_witness:
  "scoreMatch mateLine = None \<and> stockfish searchingEngine \<noteq> None
   \<and> \<not> startsWith mateLine ''bestmove''
   \<and> map_option onmessage
        (stockfish (messageHandler 0 [''e2e4'', ''d2d4''] 0 0 mateLine 0 0 0 searchingEngine))
       = Some (SearchHandler 0 [''e2e4'', ''d2d4''] 0 12)"
proof -
  obtain w where w: "stockfish searchingEngine = Some w" by (simp add: searchingEngine_eq)
  have "map_option onmessage
        (stockfish (messageHandler 0 [''e2e4'', ''d2d4''] 0 0 mateLine 0 0 0 searchingEngine))
       = Some (SearchHandler 0 [''e2e4'', ''d2d4''] 0 12)"
    using messageHandler_ignores_mate_score
      [OF mateLine_parse(3) w mateLine_parse(2), of 0 "[''e2e4'', ''d2d4'']" 0 0 0 0 0]
    by (simp add: mateLine_parse)
  then show ?thesis using w mateLine_parse by simp
qed

text \<open>
  The claim as stated fails on a forced mate: after the line \<open>mateLine\<close> and the
  final \<open>bestmove h5f7\<close>, the move is delivered with score 0 and confidence
  \<open>Questionable\<close>.
\<close>

theorem mate_line_recorded_as_zero:
  "promises (run searchingEngine
      [EngineLine mateLine 0 0 0, EngineLine ''bestmove h5f7'' 0 0 0])
   = [ResolveAfter 1000
        \<lparr> move = Some ''h5f7'',
          evaluation = \<lparr> eval_move = Some ''h5f7'', score = 0, depth = 12,
            confidence = Questionable, explanation = ''Reasonable move'' \<rparr>,
          isDeliberate = False \<rparr>]"
  by (simp add: run_def deliver_def searchingEngine_eq messageHandler_def mateLine_parse
      bestmove_parse setOnmessage_def settle_def engineMove_def applyHumanLikeInaccuracy_def
      finalAccuracy_pos evaluateConfidence_def generateExplanation_def
      calculateMoveDelay_def defaultConfig_def Let_def)

subsection \<open>A second request while one is pending\<close>

lemma orphaned_sendCommand: "orphaned rid (sendCommand c s) = orphaned rid s"
  by (simp add: orphaned_def sendCommand_def split: option.splits)

lemma orphaned_setOnmessage:
  "handlerRequest h \<noteq> Some rid \<Longrightarrow> orphaned rid s \<Longrightarrow> orphaned rid (setOnmessage h s)"
  by (simp add: orphaned_def setOnmessage_def split: option.splits)

lemma orphaned_settle: "r \<noteq> rid \<Longrightarrow> orphaned rid s \<Longrightarrow> orphaned rid (settle r p s)"
  by (simp add: orphaned_def settle_def split: option.splits)

lemma orphaned_configureEngine: "orphaned rid (configureEngine s) = orphaned rid s"
  by (simp add: configureEngine_def Let_def orphaned_sendCommand)

lemma orphaned_config: "orphaned rid (s\<lparr>config := c\<rparr>) = orphaned rid s"
  by (simp add: orphaned_def)

lemma orphaned_isReady: "orphaned rid (s\<lparr>isReady := b\<rparr>) = orphaned rid s"
  by (simp add: orphaned_def)

lemma orphaned_startSearch:
  assumes "r \<noteq> rid" "orphaned rid s"
  shows "orphaned rid (startSearch r fen moves s)"
proof -
  have a: "orphaned rid (sendCommand (PositionFen fen) s)"
    using assms by (simp add: orphaned_sendCommand)
  have h: "handlerRequest (SearchHandler r moves 0 0) \<noteq> Some rid" using assms by simp
  show ?thesis
    using assms a orphaned_setOnmessage[OF h a]
    by (simp add: startSearch_def Let_def orphaned_settle orphaned_sendCommand
        split: option.splits)
qed

lemma orphaned_messageHandler:
  assumes "r \<noteq> rid" "orphaned rid s"
  shows "orphaned rid (messageHandler r moves ev d message randomFactor rnd delayRnd s)"
proof -
  have h: "handlerRequest (SearchHandler r moves e' d') \<noteq> Some rid" for e' d'
    using assms by simp
  have n: "handlerRequest NoHandler \<noteq> Some rid" by simp
  show ?thesis
    unfolding messageHandler_def Let_def
    by (auto intro!: orphaned_settle orphaned_setOnmessage assms h n split: option.splits)
qed

lemma orphaned_deliver:
  assumes "orphaned rid s"
  shows "orphaned rid (deliver message randomFactor rnd delayRnd s)"
proof (cases "stockfish s")
  case None
  then show ?thesis using assms by (simp add: deliver_def)
next
  case (Some w)
  show ?thesis
  proof (cases "onmessage w")
    case NoHandler
    then show ?thesis using Some assms by (simp add: deliver_def)
  next
    case EngineMessageHandler
    then show ?thesis using Some assms
      by (simp add: deliver_def handleEngineMessage_def orphaned_configureEngine
          orphaned_isReady)
  next
    case (SearchHandler r moves ev d)
    then have "r \<noteq> rid" using Some assms by (auto simp: orphaned_def)
    then show ?thesis using Some SearchHandler assms
      by (simp add: deliver_def orphaned_messageHandler)
  qed
qed

lemma orphaned_getBestMove:
  assumes "orphaned rid s"
  shows "orphaned rid (snd (getBestMove fen moves s))"
proof -
  let ?s0 = "s\<lparr>promises := promises s @ [Pending]\<rparr>"
  have lt: "rid < length (promises s)" using assms by (simp add: orphaned_def)
  have o0: "orphaned rid ?s0" using assms by (simp add: orphaned_def nth_append)
  have ne: "length (promises s) \<noteq> rid" using lt by simp
  show ?thesis
  proof (cases "isReady s")
    case True
    then show ?thesis using orphaned_startSearch[OF ne o0] by (simp add: getBestMove_def Let_def)
  next
    case False
    then show ?thesis using o0 ne by (simp add: getBestMove_def Let_def orphaned_def)
  qed
qed

lemma orphaned_checkReady:
  assumes "orphaned rid s"
  shows "orphaned rid (checkReady r moves s)"
proof (cases "isReady s \<and> map_of (waiting s) r \<noteq> None")
  case False
  then show ?thesis using assms by (auto simp: checkReady_def)
next
  case True
  then obtain fen where fen: "map_of (waiting s) r = Some fen" by auto
  then have "r \<in> fst ` set (waiting s)" by (metis map_of_eq_None_iff option.distinct(1))
  then have ne: "r \<noteq> rid" using assms by (auto simp: orphaned_def)
  have "orphaned rid (s\<lparr>waiting := filter (\<lambda>e. fst e \<noteq> r) (waiting s)\<rparr>)"
    using assms by (auto simp: orphaned_def)
  then show ?thesis using True fen orphaned_startSearch[OF ne] by (simp add: checkReady_def)
qed

lemma orphaned_step: "orphaned rid s \<Longrightarrow> orphaned rid (step s e)"
  by (cases e)
     (simp_all add: orphaned_getBestMove orphaned_deliver orphaned_checkReady
        updateConfig_def orphaned_configureEngine orphaned_config)

lemma orphaned_run: "orphaned rid s \<Longrightarrow> orphaned rid (run s evs)"
  unfolding run_def by (induction evs arbitrary: s) (simp_all add: orphaned_step)

lemma getBestMove_ready:
  assumes "isReady s" "stockfish s = Some w" "moves \<noteq> []"
  shows "getBestMove fen moves s =
     (length (promises s),
      s\<lparr>promises := promises s @ [Pending],
        stockfish := Some \<lparr> onmessage = SearchHandler (length (promises s)) moves 0 0,
                            posted = posted w @ [PositionFen fen, buildSearchCommand (config s)] \<rparr>\<rparr>)"
  using assms
  by (simp add: getBestMove_def startSearch_def sendCommand_def setOnmessage_def Let_def)

lemma second_call:
  "getBestMove startFen [''g1f3''] searchingEngine =
     (1, \<lparr> stockfish = Some \<lparr> onmessage = SearchHandler 1 [''g1f3''] 0 0,
       posted = [Uci, IsReady, SetOption ''Skill Level'' 10, SetOption ''Contempt'' 0,
         SetOption ''Move Overhead'' 100, SetOption ''Skill Level'' 8, IsReady,
         PositionFen startFen, GoMovetime 1000, PositionFen startFen, GoMovetime 1000] \<rparr>,
     config = defaultConfig, isReady = True, promises = [Pending, Pending], waiting = [] \<rparr>)"
  by (simp add: searchingEngine_eq getBestMove_def startSearch_def
      sendCommand_def setOnmessage_def buildSearchCommand_def defaultConfig_def Let_def)

text \<open>
  Claim C1, amended. \<open>getBestMove\<close> has no check for a request in flight, and the
  class has no operation that cancels one. When the engine is ready and the handler
  of a pending request \<open>rid\<close> is in place, a second call with at least one legal move
  is accepted: it hands out a new pending promise, posts the position and the search
  command, and puts its own handler in place of the earlier one. After that no
  sequence of calls, engine lines and readiness polls settles request \<open>rid\<close>.
\<close>

theorem getBestMove_supersedes_pending:
  assumes "isReady s" and "stockfish s = Some w" and "onmessage w = SearchHandler rid mv ev d"
    and "rid < length (promises s)" and "promises s ! rid = Pending"
    and "rid \<notin> fst ` set (waiting s)" and "moves \<noteq> []"
  shows "getBestMove fen moves s =
     (length (promises s),
      s\<lparr>promises := promises s @ [Pending],
        stockfish := Some \<lparr> onmessage = SearchHandler (length (promises s)) moves 0 0,
                            posted = posted w @ [PositionFen fen, buildSearchCommand (config s)] \<rparr>\<rparr>)
     \<and> promises (run (snd (getBestMove fen moves s)) evs) ! rid = Pending"
proof
  show g: "getBestMove fen moves s =
     (length (promises s),
      s\<lparr>promises := promises s @ [Pending],
        stockfish := Some \<lparr> onmessage = SearchHandler (length (promises s)) moves 0 0,
                            posted = posted w @ [PositionFen fen, buildSearchCommand (config s)] \<rparr>\<rparr>)"
    by (rule getBestMove_ready[OF assms(1,2,7)])
  have "orphaned rid (snd (getBestMove fen moves s))"
    using assms(4,5,6) by (simp add: g orphaned_def nth_append)
  then have "orphaned rid (run (snd (getBestMove fen moves s)) evs)" by (rule orphaned_run)
  then show "promises (run (snd (getBestMove fen moves s)) evs) ! rid = Pending"
    by (simp add: orphaned_def)
qed

theorem getBestMove_supersedes_pending_witness:
  "isReady searchingEngine \<and> promises searchingEngine ! 0 = Pending
   \<and> promises (run (snd (getBestMove startFen [''g1f3''] searchingEngine))
        [EngineLine ''info depth 10 score cp 31 pv e2e4'' 0 0 0,
         EngineLine ''bestmove e2e4 ponder e7e5'' 0 0 0,
         EngineLine ''bestmove g1f3'' 0 0 0]) ! 0 = Pending"
proof -
  have r: "isReady searchingEngine" by (simp add: searchingEngine_eq)
  have w: "stockfish searchingEngine = Some \<lparr> onmessage = SearchHandler 0 [''e2e4'', ''d2d4''] 0 0,
       posted = [Uci, IsReady, SetOption ''Skill Level'' 10, SetOption ''Contempt'' 0,
         SetOption ''Move Overhead'' 100, SetOption ''Skill Level'' 8, IsReady,
         PositionFen startFen, GoMovetime 1000] \<rparr>" by (simp add: searchingEngine_eq)
  have h: "onmessage \<lparr> onmessage = SearchHandler 0 [''e2e4'', ''d2d4''] 0 0,
       posted = [Uci, IsReady, SetOption ''Skill Level'' 10, SetOption ''Contempt'' 0,
         SetOption ''Move Overhead'' 100, SetOption ''Skill Level'' 8, IsReady,
         PositionFen startFen, GoMovetime 1000] \<rparr> = SearchHandler 0 [''e2e4'', ''d2d4''] 0 0"
    by simp
  have l: "0 < length (promises searchingEngine)" by (simp add: searchingEngine_eq)
  have p: "promises searchingEngine ! 0 = Pending" by (simp add: searchingEngine_eq)
  have n: "0 \<notin> fst ` set (waiting searchingEngine)" by (simp add: searchingEngine_eq)
  have m: "[''g1f3''] \<noteq> []" by simp
  have "promises (run (snd (getBestMove startFen [''g1f3''] searchingEngine))
        [EngineLine ''info depth 10 score cp 31 pv e2e4'' 0 0 0,
         EngineLine ''bestmove e2e4 ponder e7e5'' 0 0 0,
         EngineLine ''bestmove g1f3'' 0 0 0]) ! 0 = Pending"
    by (rule conjunct2 [OF getBestMove_supersedes_pending [OF r w h l p n m]])
  with r p show ?thesis by (intro conjI)
qed

text \<open>
  The claim as stated fails: with request 0 pending in \<open>searchingEngine\<close>, a second
  call is not rejected and changes the state. It returns promise 1, pending, posts
  two more commands and replaces the handler of request 0.
\<close>

theorem getBestMove_second_call_accepted:
  "isReady searchingEngine \<and> promises searchingEngine = [Pending]
   \<and> map_option onmessage (stockfish searchingEngine)
       = Some (SearchHandler 0 [''e2e4'', ''d2d4''] 0 0)
   \<and> fst (getBestMove startFen [''g1f3''] searchingEngine) = 1
   \<and> snd (getBestMove startFen [''g1f3''] searchingEngine) \<noteq> searchingEngine
   \<and> promises (snd (getBestMove startFen [''g1f3''] searchingEngine)) = [Pending, Pending]
   \<and> map_option onmessage (stockfish (snd (getBestMove startFen [''g1f3''] searchingEngine)))
       = Some (SearchHandler 1 [''g1f3''] 0 0)"
  by (simp add: second_call) (simp add: searchingEngine_eq)

end
